theory Spec2Isabelle
  imports Complex_Main
begin

section \<open>Python values\<close>

text \<open>
  The values that \<open>response.json()\<close> can return. A Python \<open>dict\<close> parsed from JSON
  has no duplicate keys; it is kept as an association list and read with \<open>map_of\<close>.
  Python's \<open>None\<close> is \<open>JNull\<close>. Floats are idealised as reals.
\<close>

datatype json =
    JNull
  | JBool bool
  | JInt int
  | JFloat real
  | JStr string
  | JArr "json list"
  | JObj "(string \<times> json) list"

text \<open>\<open>type(v).__name__\<close>, as it appears in the text of an AttributeError or TypeError.\<close>

fun type_name :: "json \<Rightarrow> string" where
  "type_name JNull = ''NoneType''"
| "type_name (JBool _) = ''bool''"
| "type_name (JInt _) = ''int''"
| "type_name (JFloat _) = ''float''"
| "type_name (JStr _) = ''str''"
| "type_name (JArr _) = ''list''"
| "type_name (JObj _) = ''dict''"

definition no_attribute_get :: "json \<Rightarrow> string" where
  "no_attribute_get v = [CHR 0x27] @ type_name v @ [CHR 0x27] @ '' object has no attribute '' @ [CHR 0x27] @ ''get'' @ [CHR 0x27]"

definition not_iterable :: "json \<Rightarrow> string" where
  "not_iterable v = ''argument of type '' @ [CHR 0x27] @ type_name v @ [CHR 0x27] @ '' is not iterable''"

definition not_iterable_object :: "json \<Rightarrow> string" where
  "not_iterable_object v = [CHR 0x27] @ type_name v @ [CHR 0x27] @ '' object is not iterable''"

text \<open>\<open>needle in haystack\<close> on two strings: a contiguous occurrence.\<close>

fun str_contains :: "string \<Rightarrow> string \<Rightarrow> bool" where
  "str_contains needle [] = (needle = [])"
| "str_contains needle (c # cs) = (take (length needle) (c # cs) = needle \<or> str_contains needle cs)"

text \<open>\<open>str(n)\<close> for an integer.\<close>

fun str_nat :: "nat \<Rightarrow> string" where
  "str_nat n = (if n < 10 then [char_of (48 + n)] else str_nat (n div 10) @ [char_of (48 + n mod 10)])"

definition str_int :: "int \<Rightarrow> string" where
  "str_int i = (if i < 0 then CHR ''-'' # str_nat (nat (- i)) else str_nat (nat i))"

text \<open>\<open>int(x)\<close> for a float: truncation towards zero.\<close>

definition py_int :: "real \<Rightarrow> int" where
  "py_int x = (if 0 \<le> x then \<lfloor>x\<rfloor> else \<lceil>x\<rceil>)"

text \<open>\<open>s.rstrip('/')\<close>.\<close>

definition rstrip_slash :: "string \<Rightarrow> string" where
  "rstrip_slash s = rev (dropWhile (\<lambda>c. c = CHR ''/'') (rev s))"

section \<open>Configuration (app/config.py)\<close>

record settings =
  MCP_SIGNING_SECRET :: string
  RATE_LIMIT_IP_PER_MINUTE :: int
  RATE_LIMIT_IP_PER_HOUR :: int
  RATE_LIMIT_USER_PER_MINUTE :: int
  RATE_LIMIT_USER_PER_HOUR :: int
  RATE_LIMIT_TOOL_PER_MINUTE :: int
  RATE_LIMIT_BURST_SIZE :: int
  MCP_MAX_RETRIES :: int
  MCP_RETRY_DELAY :: real

section \<open>Request signing (app/core/security.py, MCPClient._sign_request)\<close>

text \<open>
  \<open>hmac.new(key, message, hashlib.sha256).hexdigest()\<close> belongs to the Python standard
  library; it is a parameter \<open>hmac_hex key message\<close> of the model.
\<close>

type_synonym hmac = "string \<Rightarrow> string \<Rightarrow> string"

definition canonical_message :: "string \<Rightarrow> string \<Rightarrow> string \<Rightarrow> string \<Rightarrow> string" where
  "canonical_message method endpoint timestamp body =
     method @ [CHR 0x0A] @ endpoint @ [CHR 0x0A] @ timestamp @ [CHR 0x0A] @ body"

definition sign_request :: "hmac \<Rightarrow> settings \<Rightarrow> string \<Rightarrow> string \<Rightarrow> string \<Rightarrow> string \<Rightarrow> string" where
  "sign_request hmac_hex cfg endpoint method body timestamp =
     hmac_hex (MCP_SIGNING_SECRET cfg) (canonical_message method endpoint timestamp body)"

text \<open>\<open>hmac.compare_digest\<close> on two ASCII strings is equality, computed in constant time.\<close>

definition verify_signature ::
  "hmac \<Rightarrow> settings \<Rightarrow> string \<Rightarrow> string \<Rightarrow> string \<Rightarrow> string \<Rightarrow> string \<Rightarrow> bool" where
  "verify_signature hmac_hex cfg endpoint method body timestamp signature =
     (let expected = sign_request hmac_hex cfg endpoint method body timestamp
      in signature = expected)"

text \<open>\<open>MCPClient._sign_request\<close>; \<open>now\<close> is the reading of \<open>time.time()\<close>.\<close>

definition client_sign_request ::
  "hmac \<Rightarrow> real \<Rightarrow> string \<Rightarrow> string \<Rightarrow> string \<Rightarrow> string \<Rightarrow> (string \<times> string) list" where
  "client_sign_request hmac_hex now endpoint method body api_key =
     (let timestamp = str_int (py_int now);
          message = canonical_message method endpoint timestamp body;
          signature = hmac_hex api_key message
      in [(''X-MCP-Timestamp'', timestamp), (''X-MCP-Signature'', signature)])"

section \<open>Tool invocation (app/mcp/client.py)\<close>

record tool_result =
  success :: bool
  result :: json
  error :: json
  duration_ms :: int

text \<open>
  What the \<open>try\<close> block of one attempt can raise, in the order of the handlers:
  \<open>httpx.TimeoutException\<close>, \<open>httpx.HTTPStatusError\<close> (status code and response text),
  and any other \<open>Exception\<close> (with its \<open>str(e)\<close>).
\<close>

datatype py_exception =
    TimeoutException
  | HTTPStatusError int string
  | OtherException string

text \<open>What the client does to the outside world, in order.\<close>

datatype event =
    HttpPost string "(string \<times> string) list" json
  | Sleep real

text \<open>
  The collaborators of \<open>invoke_tool\<close>: \<open>decrypt_value\<close> (Fernet; \<open>Inl\<close> is the text of the
  exception it raises), \<open>json.dumps\<close>, the HMAC, the clock read when attempt \<open>k\<close> signs,
  the elapsed milliseconds measured when the call returns in attempt \<open>k\<close>, and the tool
  server: what lines 166-176 (post, \<open>raise_for_status\<close>, \<open>response.json()\<close>) give in
  attempt \<open>k\<close>.
\<close>

record env =
  decrypt_value :: "string \<Rightarrow> string + string"
  json_dumps :: "json \<Rightarrow> string"
  hmac_hex :: hmac
  time_at :: "nat \<Rightarrow> real"
  elapsed_ms :: "nat \<Rightarrow> int"
  server :: "nat \<Rightarrow> py_exception + json"

definition call_body :: "string \<Rightarrow> json \<Rightarrow> json" where
  "call_body tool_name arguments = JObj [(''name'', JStr tool_name), (''arguments'', arguments)]"

text \<open>Lines 146-164: the headers, or the exception of \<open>decrypt_value\<close>.\<close>

definition build_headers ::
  "env \<Rightarrow> nat \<Rightarrow> string \<Rightarrow> string \<Rightarrow> json \<Rightarrow> string option \<Rightarrow> py_exception + (string \<times> string) list" where
  "build_headers e attempt mcp_endpoint tool_name arguments api_key_encrypted =
     (let headers = [(''Content-Type'', ''application/json'')] in
      case api_key_encrypted of
        None \<Rightarrow> Inr headers
      | Some enc \<Rightarrow>
          if enc = [] then Inr headers
          else (case decrypt_value e enc of
                  Inl msg \<Rightarrow> Inl (OtherException msg)
                | Inr api_key \<Rightarrow>
                    (let headers = headers @ [(''Authorization'', ''Bearer '' @ api_key)];
                         body = json_dumps e (call_body tool_name arguments);
                         signing_headers =
                           client_sign_request (hmac_hex e) (time_at e attempt) mcp_endpoint ''POST'' body api_key
                     in Inr (headers @ signing_headers))))"

text \<open>\<open>"error" in data\<close>.\<close>

fun error_in :: "json \<Rightarrow> py_exception + bool" where
  "error_in (JObj kv) = Inr (''error'' \<in> set (map fst kv))"
| "error_in (JArr xs) = Inr (JStr ''error'' \<in> set xs)"
| "error_in (JStr s) = Inr (str_contains ''error'' s)"
| "error_in v = Inl (OtherException (not_iterable v))"

text \<open>\<open>d.get(key, default)\<close>.\<close>

fun py_get :: "json \<Rightarrow> string \<Rightarrow> json \<Rightarrow> py_exception + json" where
  "py_get (JObj kv) k d = Inr (case map_of kv k of None \<Rightarrow> d | Some v \<Rightarrow> v)"
| "py_get v k d = Inl (OtherException (no_attribute_get v))"

text \<open>\<open>data["error"]\<close>, evaluated only after \<open>"error" in data\<close> was true.\<close>

fun index_error :: "json \<Rightarrow> py_exception + json" where
  "index_error (JObj kv) = (case map_of kv ''error'' of
       None \<Rightarrow> Inl (OtherException ([CHR 0x27] @ ''error'' @ [CHR 0x27]))
     | Some v \<Rightarrow> Inr v)"
| "index_error (JArr xs) = Inl (OtherException ''list indices must be integers or slices, not str'')"
| "index_error v = Inl (OtherException (''string indices must be integers, not '' @ [CHR 0x27] @ ''str'' @ [CHR 0x27]))"

text \<open>Lines 177-192: the result built from the parsed response.\<close>

definition interpret_response :: "int \<Rightarrow> json \<Rightarrow> py_exception + tool_result" where
  "interpret_response dur data =
     (case error_in data of
        Inl ex \<Rightarrow> Inl ex
      | Inr True \<Rightarrow>
          (case index_error data of
             Inl ex \<Rightarrow> Inl ex
           | Inr err \<Rightarrow>
               (case py_get err ''message'' (JStr ''Unknown error'') of
                  Inl ex \<Rightarrow> Inl ex
                | Inr m \<Rightarrow> Inr \<lparr>success = False, result = JNull, error = m, duration_ms = dur\<rparr>))
      | Inr False \<Rightarrow>
          (case py_get data ''result'' JNull of
             Inl ex \<Rightarrow> Inl ex
           | Inr r \<Rightarrow>
               (case py_get data ''content'' r of
                  Inl ex \<Rightarrow> Inl ex
                | Inr c \<Rightarrow> Inr \<lparr>success = True, result = c, error = JNull, duration_ms = dur\<rparr>)))"

text \<open>The \<open>try\<close> block of attempt \<open>k\<close>: the events it causes and what it returns or raises.\<close>

definition try_attempt ::
  "env \<Rightarrow> nat \<Rightarrow> string \<Rightarrow> string \<Rightarrow> json \<Rightarrow> string option \<Rightarrow> event list \<times> (py_exception + tool_result)" where
  "try_attempt e attempt mcp_endpoint tool_name arguments api_key_encrypted =
     (case build_headers e attempt mcp_endpoint tool_name arguments api_key_encrypted of
        Inl ex \<Rightarrow> ([], Inl ex)
      | Inr headers \<Rightarrow>
          (let post = HttpPost (rstrip_slash mcp_endpoint @ ''/tools/call'') headers
                        (call_body tool_name arguments)
           in case server e attempt of
                Inl ex \<Rightarrow> ([post], Inl ex)
              | Inr data \<Rightarrow> ([post], interpret_response (elapsed_ms e attempt) data)))"

definition failure :: "string \<Rightarrow> int \<Rightarrow> tool_result" where
  "failure msg dur = \<lparr>success = False, result = JNull, error = JStr msg, duration_ms = dur\<rparr>"

text \<open>
  The \<open>for attempt in range(settings.MCP_MAX_RETRIES)\<close> loop over the attempts still to
  run. \<open>None\<close> means that the loop ended without returning.
\<close>

fun retry_loop ::
  "env \<Rightarrow> settings \<Rightarrow> string \<Rightarrow> string \<Rightarrow> json \<Rightarrow> string option \<Rightarrow> nat list
     \<Rightarrow> event list \<times> tool_result option" where
  "retry_loop e cfg mcp_endpoint tool_name arguments api_key_encrypted [] = ([], None)"
| "retry_loop e cfg mcp_endpoint tool_name arguments api_key_encrypted (attempt # rest) =
     (case try_attempt e attempt mcp_endpoint tool_name arguments api_key_encrypted of
        (evs, Inr r) \<Rightarrow> (evs, Some r)
      | (evs, Inl TimeoutException) \<Rightarrow>
          if int attempt < MCP_MAX_RETRIES cfg - 1 then
            (let (evs', r) = retry_loop e cfg mcp_endpoint tool_name arguments api_key_encrypted rest
             in (evs @ [Sleep (MCP_RETRY_DELAY cfg * real (attempt + 1))] @ evs', r))
          else (evs, Some (failure ''Request timed out'' (elapsed_ms e attempt)))
      | (evs, Inl (HTTPStatusError code text)) \<Rightarrow>
          (evs, Some (failure (''HTTP '' @ str_int code @ '': '' @ take 200 text) (elapsed_ms e attempt)))
      | (evs, Inl (OtherException msg)) \<Rightarrow>
          (evs, Some (failure msg (elapsed_ms e attempt))))"

text \<open>\<open>range(n)\<close>: empty when \<open>n \<le> 0\<close>.\<close>

definition py_range :: "int \<Rightarrow> nat list" where
  "py_range n = [0..<nat n]"

definition invoke_tool ::
  "env \<Rightarrow> settings \<Rightarrow> string \<Rightarrow> string \<Rightarrow> json \<Rightarrow> string option \<Rightarrow> event list \<times> tool_result" where
  "invoke_tool e cfg mcp_endpoint tool_name arguments api_key_encrypted =
     (case retry_loop e cfg mcp_endpoint tool_name arguments api_key_encrypted
             (py_range (MCP_MAX_RETRIES cfg)) of
        (evs, Some r) \<Rightarrow> (evs, r)
      | (evs, None) \<Rightarrow>
          (evs, failure ''Max retries exceeded'' (elapsed_ms e (nat (MCP_MAX_RETRIES cfg)))))"

text \<open>The number of HTTP attempts among the events.\<close>

fun is_post :: "event \<Rightarrow> bool" where
  "is_post (HttpPost _ _ _) = True"
| "is_post (Sleep _) = False"

definition attempts_made :: "event list \<Rightarrow> nat" where
  "attempts_made evs = length (filter is_post evs)"

section \<open>The shared store (Redis)\<close>

text \<open>
  The part of Redis the limiters use. A sorted set is a list of (member, score) pairs with
  one pair per member; the limiter's member is \<open>str(now)\<close>, which determines \<open>now\<close>, so
  the member is kept as the number itself. Token buckets are string keys that hold a
  float. The key prefixes \<open>ratelimit:\<close> and \<open>bucket:\<close> keep the two kinds of key apart.
  \<open>ttl\<close> is the expiry last set on a key. \<open>checks\<close> is not part of Redis: it lists the
  keys on which \<open>is_allowed\<close> has run, in order.
\<close>

record redis =
  zsets :: "string \<Rightarrow> (real \<times> real) list"
  strings :: "string \<Rightarrow> real option"
  ttl :: "string \<Rightarrow> int option"
  checks :: "string list"

text \<open>A sorted set that becomes empty is removed, and its expiry with it.\<close>

definition put_zset :: "string \<Rightarrow> (real \<times> real) list \<Rightarrow> redis \<Rightarrow> redis" where
  "put_zset key zs st =
     st\<lparr>zsets := (zsets st)(key := zs),
        ttl := (if zs = [] then (ttl st)(key := None) else ttl st)\<rparr>"

definition zremrangebyscore :: "string \<Rightarrow> real \<Rightarrow> real \<Rightarrow> redis \<Rightarrow> redis" where
  "zremrangebyscore key lo hi st =
     put_zset key (filter (\<lambda>(m, s). \<not> (lo \<le> s \<and> s \<le> hi)) (zsets st key)) st"

definition zcard :: "string \<Rightarrow> redis \<Rightarrow> int" where
  "zcard key st = int (length (zsets st key))"

definition zadd :: "string \<Rightarrow> real \<Rightarrow> real \<Rightarrow> redis \<Rightarrow> redis" where
  "zadd key member score st =
     put_zset key ((member, score) # filter (\<lambda>(m, s). m \<noteq> member) (zsets st key)) st"

definition zrem :: "string \<Rightarrow> real \<Rightarrow> redis \<Rightarrow> redis" where
  "zrem key member st = put_zset key (filter (\<lambda>(m, s). m \<noteq> member) (zsets st key)) st"

text \<open>\<open>EXPIRE\<close> does nothing on a missing key and deletes the key when the time is not positive.\<close>

definition expire :: "string \<Rightarrow> int \<Rightarrow> redis \<Rightarrow> redis" where
  "expire key seconds st =
     (if zsets st key = [] \<and> strings st key = None then st
      else if seconds \<le> 0 then
        st\<lparr>zsets := (zsets st)(key := []), strings := (strings st)(key := None),
           ttl := (ttl st)(key := None)\<rparr>
      else st\<lparr>ttl := (ttl st)(key \<mapsto> seconds)\<rparr>)"

definition redis_get :: "string \<Rightarrow> redis \<Rightarrow> real option" where
  "redis_get key st = strings st key"

text \<open>\<open>SET\<close> replaces the value and clears the expiry.\<close>

definition redis_set :: "string \<Rightarrow> real \<Rightarrow> redis \<Rightarrow> redis" where
  "redis_set key v st = st\<lparr>strings := (strings st)(key \<mapsto> v), ttl := (ttl st)(key := None)\<rparr>"

section \<open>Sliding window (app/core/rate_limiter.py, RateLimiter)\<close>

record rate_limit_info =
  limit :: int
  remaining :: int
  reset :: int
  window :: int

text \<open>
  Lines 35-50: the pipeline, which redis-py sends as one MULTI/EXEC transaction. It gives
  \<open>results[1]\<close>, the count between the eviction and the insertion.
\<close>

definition is_allowed_pipeline :: "string \<Rightarrow> int \<Rightarrow> real \<Rightarrow> redis \<Rightarrow> int \<times> redis" where
  "is_allowed_pipeline key window_seconds now st =
     (let window_start = now - real_of_int window_seconds;
          st1 = zremrangebyscore key 0 window_start st;
          current_count = zcard key st1;
          st2 = zadd key now now st1;
          st3 = expire key (window_seconds + 1) st2
      in (current_count, st3))"

text \<open>Lines 52-64: the decision, and the removal of the entry of a denied request.\<close>

definition is_allowed_finish ::
  "string \<Rightarrow> int \<Rightarrow> int \<Rightarrow> real \<Rightarrow> int \<Rightarrow> redis \<Rightarrow> (bool \<times> rate_limit_info) \<times> redis" where
  "is_allowed_finish key limit' window_seconds now current_count st =
     (let info = \<lparr>limit = limit',
                  remaining = max 0 (limit' - current_count - 1),
                  reset = py_int (now + real_of_int window_seconds),
                  window = window_seconds\<rparr>
      in if current_count \<ge> limit' then ((False, info), zrem key now st)
         else ((True, info), st))"

definition is_allowed ::
  "string \<Rightarrow> int \<Rightarrow> int \<Rightarrow> real \<Rightarrow> redis \<Rightarrow> (bool \<times> rate_limit_info) \<times> redis" where
  "is_allowed key limit' window_seconds now st =
     (let (current_count, st') =
            is_allowed_pipeline key window_seconds now (st\<lparr>checks := checks st @ [key]\<rparr>)
      in is_allowed_finish key limit' window_seconds now current_count st')"

text \<open>The entries of a key that the eviction of a check at \<open>now\<close> leaves in place.\<close>

definition surviving :: "string \<Rightarrow> int \<Rightarrow> real \<Rightarrow> redis \<Rightarrow> (real \<times> real) list" where
  "surviving key window_seconds now st =
     filter (\<lambda>(m, s). \<not> (0 \<le> s \<and> s \<le> now - real_of_int window_seconds)) (zsets st key)"




section \<open>Token bucket (app/core/rate_limiter.py, TokenBucket)\<close>

text \<open>\<open>bucket_size or settings.RATE_LIMIT_BURST_SIZE\<close>: \<open>None\<close> and \<open>0\<close> are falsy.\<close>

definition effective_bucket_size :: "settings \<Rightarrow> int option \<Rightarrow> int" where
  "effective_bucket_size cfg bucket_size =
     (case bucket_size of
        None \<Rightarrow> RATE_LIMIT_BURST_SIZE cfg
      | Some b \<Rightarrow> if b = 0 then RATE_LIMIT_BURST_SIZE cfg else b)"

text \<open>Lines 160-178: the token count after the lazy refill.\<close>

definition refilled_tokens :: "settings \<Rightarrow> string \<Rightarrow> int option \<Rightarrow> real \<Rightarrow> real \<Rightarrow> redis \<Rightarrow> real" where
  "refilled_tokens cfg key bucket_size refill_rate now st =
     (let size = effective_bucket_size cfg bucket_size;
          bucket_key = ''bucket:'' @ key;
          last_update_key = ''bucket:'' @ key @ '':last'';
          current_tokens = (case redis_get bucket_key st of None \<Rightarrow> real_of_int size | Some v \<Rightarrow> v);
          last_update = (case redis_get last_update_key st of None \<Rightarrow> now | Some v \<Rightarrow> v);
          elapsed = now - last_update;
          tokens_to_add = elapsed * refill_rate
      in min (real_of_int size) (current_tokens + tokens_to_add))"

definition consume ::
  "settings \<Rightarrow> string \<Rightarrow> int \<Rightarrow> int option \<Rightarrow> real \<Rightarrow> real \<Rightarrow> redis \<Rightarrow> (bool \<times> int) \<times> redis" where
  "consume cfg key tokens bucket_size refill_rate now st =
     (let bucket_key = ''bucket:'' @ key;
          last_update_key = ''bucket:'' @ key @ '':last'';
          current_tokens = refilled_tokens cfg key bucket_size refill_rate now st
      in if current_tokens \<ge> real_of_int tokens then
           (let new_tokens = current_tokens - real_of_int tokens;
                st1 = redis_set bucket_key new_tokens st;
                st2 = redis_set last_update_key now st1;
                st3 = expire bucket_key 3600 st2;
                st4 = expire last_update_key 3600 st3
            in ((True, py_int new_tokens), st4))
         else ((False, py_int current_tokens), st))"

section \<open>The admission gate (app/api/deps.py, check_rate_limit)\<close>

record http_exception =
  status_code :: int
  detail :: string
  headers :: "(string \<times> string) list"





definition empty_redis :: redis where
  "empty_redis = \<lparr>zsets = (\<lambda>k. []), strings = (\<lambda>k. None), ttl = (\<lambda>k. None), checks = []\<rparr>"

section \<open>Two concurrent sliding-window checks\<close>

text \<open>
  A call of \<open>is_allowed\<close> talks to Redis twice: the pipeline, which Redis runs as one
  transaction, and, for a denied request, the removal of its entry. Between the two, other
  clients may run. A call is \<open>Pending\<close> before the pipeline, \<open>Counted c\<close> when the pipeline
  has given the count \<open>c\<close>, and \<open>Returned allowed\<close> at its end.
\<close>

datatype call_state = Pending | Counted int | Returned bool

text \<open>One atomic step of a call.\<close>

fun step_call :: "string \<Rightarrow> int \<Rightarrow> int \<Rightarrow> real \<Rightarrow> call_state \<Rightarrow> redis \<Rightarrow> call_state \<times> redis" where
  "step_call key n w now Pending st =
     (let (current_count, st') = is_allowed_pipeline key w now (st\<lparr>checks := checks st @ [key]\<rparr>)
      in (Counted current_count, st'))"
| "step_call key n w now (Counted current_count) st =
     (let ((allowed, info), st') = is_allowed_finish key n w now current_count st
      in (Returned allowed, st'))"
| "step_call key n w now (Returned allowed) st = (Returned allowed, st)"

text \<open>
  Two calls on the same key, with clock readings \<open>ta\<close> and \<open>tb\<close>, under a schedule: each
  entry says whether the first or the second call takes the next step.
\<close>

fun run_schedule ::
  "string \<Rightarrow> int \<Rightarrow> int \<Rightarrow> real \<Rightarrow> real \<Rightarrow> bool list \<Rightarrow> call_state \<times> call_state \<times> redis
     \<Rightarrow> call_state \<times> call_state \<times> redis" where
  "run_schedule key n w ta tb [] s = s"
| "run_schedule key n w ta tb (first # sched) (a, b, st) =
     (if first then
        (let (a', st') = step_call key n w ta a st in run_schedule key n w ta tb sched (a', b, st'))
      else
        (let (b', st') = step_call key n w tb b st in run_schedule key n w ta tb sched (a, b', st')))"

text \<open>
  For limit 1: the calls that have seen a count below the limit, and those that have seen
  the limit reached.
\<close>

fun admitted_path :: "call_state \<Rightarrow> bool" where
  "admitted_path Pending = False"
| "admitted_path (Counted c) = (c < 1)"
| "admitted_path (Returned b) = b"

fun denied_path :: "call_state \<Rightarrow> bool" where
  "denied_path Pending = False"
| "denied_path (Counted c) = (1 \<le> c)"
| "denied_path (Returned b) = (\<not> b)"

text \<open>What holds at every point of a schedule that starts from an empty window.\<close>

definition single_admit_inv :: "string \<Rightarrow> real \<Rightarrow> real \<Rightarrow> call_state \<times> call_state \<times> redis \<Rightarrow> bool" where
  "single_admit_inv key ta tb s =
     (case s of (a, b, st) \<Rightarrow>
        (a = Pending \<and> b = Pending \<and> zsets st key = [])
      \<or> (admitted_path a \<and> b = Pending \<and> (ta, ta) \<in> set (zsets st key))
      \<or> (a = Pending \<and> admitted_path b \<and> (tb, tb) \<in> set (zsets st key))
      \<or> (admitted_path a \<and> denied_path b)
      \<or> (denied_path a \<and> admitted_path b))"

section \<open>Tool discovery (app/mcp/client.py)\<close>

record tool =
  name :: json
  description :: json
  parameters :: json
  app_id :: string
  app_name :: string

text \<open>What a \<open>for\<close> loop over a value iterates: the items of a list, the keys of a dict,
  the characters of a string; anything else is not iterable.\<close>

fun py_iter :: "json \<Rightarrow> py_exception + json list" where
  "py_iter (JArr xs) = Inr xs"
| "py_iter (JObj kv) = Inr (map (\<lambda>(k, v). JStr k) kv)"
| "py_iter (JStr s) = Inr (map (\<lambda>c. JStr [c]) s)"
| "py_iter v = Inl (OtherException (not_iterable_object v))"

text \<open>Lines 112-118: the \<open>Tool\<close> built from one item of the catalogue.\<close>

definition tool_of :: "string \<Rightarrow> string \<Rightarrow> json \<Rightarrow> py_exception + tool" where
  "tool_of aid aname tool_data =
     (case py_get tool_data ''name'' (JStr '''') of
        Inl ex \<Rightarrow> Inl ex
      | Inr n \<Rightarrow>
          (case py_get tool_data ''description'' (JStr '''') of
             Inl ex \<Rightarrow> Inl ex
           | Inr d \<Rightarrow>
               (case py_get tool_data ''inputSchema'' (JObj []) of
                  Inl ex \<Rightarrow> Inl ex
                | Inr p \<Rightarrow>
                    Inr \<lparr>name = n, description = d, parameters = p, app_id = aid, app_name = aname\<rparr>)))"

text \<open>The loop of lines 111-118; an exception in any iteration leaves the loop.\<close>

fun collect_tools :: "string \<Rightarrow> string \<Rightarrow> json list \<Rightarrow> tool list \<Rightarrow> py_exception + tool list" where
  "collect_tools aid aname [] tools = Inr tools"
| "collect_tools aid aname (tool_data # rest) tools =
     (case tool_of aid aname tool_data of
        Inl ex \<Rightarrow> Inl ex
      | Inr t \<Rightarrow> collect_tools aid aname rest (tools @ [t]))"

text \<open>
  The \<open>try\<close> block of \<open>discover_tools\<close>. \<open>http_post url headers body\<close> is what lines 101-108
  give for that request: the parsed body, or the exception of the post, of
  \<open>raise_for_status\<close> or of \<open>response.json()\<close>.
\<close>

definition discover_tools_try ::
  "(string \<Rightarrow> string + string) \<Rightarrow> (string \<Rightarrow> (string \<times> string) list \<Rightarrow> json \<Rightarrow> py_exception + json)
     \<Rightarrow> string \<Rightarrow> string option \<Rightarrow> string \<Rightarrow> string \<Rightarrow> py_exception + tool list" where
  "discover_tools_try decrypt http_post mcp_endpoint api_key_encrypted aid aname =
     (let hs = [(''Content-Type'', ''application/json'')];
          auth = (case api_key_encrypted of
                    None \<Rightarrow> Inr hs
                  | Some enc \<Rightarrow>
                      if enc = [] then Inr hs
                      else (case decrypt enc of
                              Inl msg \<Rightarrow> Inl (OtherException msg)
                            | Inr api_key \<Rightarrow> Inr (hs @ [(''Authorization'', ''Bearer '' @ api_key)])))
      in case auth of
           Inl ex \<Rightarrow> Inl ex
         | Inr hs' \<Rightarrow>
             (case http_post (rstrip_slash mcp_endpoint @ ''/tools/list'') hs' (JObj []) of
                Inl ex \<Rightarrow> Inl ex
              | Inr data \<Rightarrow>
                  (case py_get data ''tools'' (JArr []) of
                     Inl ex \<Rightarrow> Inl ex
                   | Inr ts \<Rightarrow>
                       (case py_iter ts of
                          Inl ex \<Rightarrow> Inl ex
                        | Inr items \<Rightarrow> collect_tools aid aname items []))))"

text \<open>
  \<open>discover_tools\<close> with its two handlers: \<open>httpx.HTTPError\<close> (timeouts and status errors
  among them) and \<open>Exception\<close>. \<open>Inl\<close> would be an exception that leaves the function.
\<close>

definition discover_tools ::
  "(string \<Rightarrow> string + string) \<Rightarrow> (string \<Rightarrow> (string \<times> string) list \<Rightarrow> json \<Rightarrow> py_exception + json)
     \<Rightarrow> string \<Rightarrow> string option \<Rightarrow> string \<Rightarrow> string \<Rightarrow> py_exception + tool list" where
  "discover_tools decrypt http_post mcp_endpoint api_key_encrypted aid aname =
     (case discover_tools_try decrypt http_post mcp_endpoint api_key_encrypted aid aname of
        Inr tools \<Rightarrow> Inr tools
      | Inl TimeoutException \<Rightarrow> Inr []
      | Inl (HTTPStatusError code text) \<Rightarrow> Inr []
      | Inl (OtherException msg) \<Rightarrow> Inr [])"

section \<open>The chat endpoint's tool call (app/api/v1/chat.py)\<close>



section \<open>Example inputs\<close>

definition example_settings :: "int \<Rightarrow> settings" where
  "example_settings retries =
     \<lparr>MCP_SIGNING_SECRET = ''s3cret'',
      RATE_LIMIT_IP_PER_MINUTE = 60, RATE_LIMIT_IP_PER_HOUR = 1000,
      RATE_LIMIT_USER_PER_MINUTE = 100, RATE_LIMIT_USER_PER_HOUR = 2000,
      RATE_LIMIT_TOOL_PER_MINUTE = 30, RATE_LIMIT_BURST_SIZE = 10,
      MCP_MAX_RETRIES = retries, MCP_RETRY_DELAY = 1\<rparr>"

definition example_env :: "(nat \<Rightarrow> py_exception + json) \<Rightarrow> env" where
  "example_env srv =
     \<lparr>decrypt_value = (\<lambda>enc. Inr enc), json_dumps = (\<lambda>j. ''{}''),
      hmac_hex = (\<lambda>k m. k @ m), time_at = (\<lambda>k. 1700000000),
      elapsed_ms = (\<lambda>k. 5 * int k), server = srv\<rparr>"

definition quota_error :: json where
  "quota_error = JObj [(''error'', JObj [(''message'', JStr ''quota exceeded'')])]"

definition half_bucket :: redis where
  "half_bucket = empty_redis\<lparr>strings := [''bucket:k'' \<mapsto> 1 / 2, ''bucket:k:last'' \<mapsto> 0]\<rparr>"



definition quota_error_text :: string where
  "quota_error_text =
     ''{'' @ [CHR 0x22] @ ''error'' @ [CHR 0x22] @ '': {'' @ [CHR 0x22] @ ''message'' @ [CHR 0x22]
       @ '': '' @ [CHR 0x22] @ ''quota exceeded'' @ [CHR 0x22] @ ''}}''"




section \<open>Properties of tool invocation\<close>


lemma build_headers_not_timeout:
  "build_headers e k ep tn args key \<noteq> Inl TimeoutException"
  by (simp add: build_headers_def Let_def split: option.splits sum.splits)

lemma error_in_not_timeout: "error_in v \<noteq> Inl TimeoutException"
  by (cases v) simp_all

lemma py_get_not_timeout: "py_get v k d \<noteq> Inl TimeoutException"
  by (cases v) simp_all

lemma index_error_not_timeout: "index_error v \<noteq> Inl TimeoutException"
  by (cases v) (simp_all split: option.splits)

lemma interpret_response_not_timeout:
  "interpret_response d data \<noteq> Inl TimeoutException"
  using error_in_not_timeout [of data] index_error_not_timeout [of data]
    py_get_not_timeout
  by (auto simp: interpret_response_def split: sum.splits bool.splits)

lemma try_attempt_timeout_events:
  assumes "snd (try_attempt e k ep tn args key) = Inl TimeoutException"
  shows "attempts_made (fst (try_attempt e k ep tn args key)) = 1"
  using assms build_headers_not_timeout [of e k ep tn args key]
    interpret_response_not_timeout [of "elapsed_ms e k"]
  by (auto simp: try_attempt_def attempts_made_def Let_def split: sum.splits)

lemma attempts_made_append:
  "attempts_made (xs @ ys) = attempts_made xs + attempts_made ys"
  by (simp add: attempts_made_def)

lemma attempts_made_Cons:
  "attempts_made (ev # evs) = (if is_post ev then 1 else 0) + attempts_made evs"
  by (simp add: attempts_made_def)

lemma attempts_made_le_one:
  "attempts_made (fst (try_attempt e k ep tn args key)) \<le> 1"
  by (auto simp: try_attempt_def attempts_made_def Let_def split: sum.splits)



lemma retry_loop_after_timeouts:
  assumes n: "int n = MCP_MAX_RETRIES cfg"
    and k: "k < n"
    and t: "\<forall>j<k. snd (try_attempt e j ep tn args key) = Inl TimeoutException"
    and r: "snd (try_attempt e k ep tn args key) = Inr r"
  shows "i \<le> k \<Longrightarrow>
     snd (retry_loop e cfg ep tn args key [i..<n]) = Some r
     \<and> attempts_made (fst (retry_loop e cfg ep tn args key [i..<n])) =
         k - i + attempts_made (fst (try_attempt e k ep tn args key))"
proof (induction "k - i" arbitrary: i)
  case 0
  then have ik: "i = k" by simp
  have up: "[k..<n] = k # [Suc k..<n]"
    using k by (simp add: upt_conv_Cons)
  show ?case using r by (cases "try_attempt e k ep tn args key") (simp add: ik up)
next
  case (Suc d)
  then have ik: "i < k" by simp
  then have ti: "snd (try_attempt e i ep tn args key) = Inl TimeoutException"
    using t by simp
  then obtain evs where ta: "try_attempt e i ep tn args key = (evs, Inl TimeoutException)"
    by (cases "try_attempt e i ep tn args key") auto
  have am: "attempts_made evs = 1"
    using try_attempt_timeout_events [OF ti] ta by simp
  have up: "[i..<n] = i # [Suc i..<n]"
    using ik k by (simp add: upt_conv_Cons)
  have lt: "int i < MCP_MAX_RETRIES cfg - 1" using n ik k by linarith
  have d: "d = k - Suc i" using Suc.hyps(2) by simp
  have le: "Suc i \<le> k" using ik by simp
  from Suc.hyps(1) [OF d le] lt ta am ik show ?case
    by (auto simp: up attempts_made_append attempts_made_Cons split: prod.splits)
qed






text \<open>
  Claim C7, as amended, for a response that passed \<open>raise_for_status\<close>. When attempt
  \<open>k\<close> is reached (the earlier ones timed out) and its response
  parses to an object whose \<open>error\<close> entry is an object with a \<open>message\<close> entry \<open>m\<close>,
  \<open>invoke_tool\<close> returns \<open>success = False\<close> with \<open>error = m\<close> from that attempt: the
  events hold exactly \<open>k + 1\<close> HTTP attempts, so none follows it.
\<close>

theorem invoke_tool_error_passthrough:
  assumes "int k < MCP_MAX_RETRIES cfg"
    and "\<forall>j<k. snd (try_attempt e j ep tn args key) = Inl TimeoutException"
    and "build_headers e k ep tn args key = Inr hs"
    and "server e k = Inr (JObj kv)"
    and "map_of kv ''error'' = Some (JObj ekv)"
    and "map_of ekv ''message'' = Some m"
  shows "snd (invoke_tool e cfg ep tn args key) =
           \<lparr>success = False, result = JNull, error = m, duration_ms = elapsed_ms e k\<rparr>
       \<and> attempts_made (fst (invoke_tool e cfg ep tn args key)) = Suc k"
proof -
  let ?n = "nat (MCP_MAX_RETRIES cfg)"
  let ?r = "\<lparr>success = False, result = JNull, error = m, duration_ms = elapsed_ms e k\<rparr>"
  have n: "int ?n = MCP_MAX_RETRIES cfg" and k: "k < ?n" using assms(1) by simp_all
  have mem: "''error'' \<in> fst ` set kv"
    using assms(5) by (metis map_of_eq_None_iff option.distinct(1))
  have ir: "interpret_response (elapsed_ms e k) (JObj kv) = Inr ?r"
    using mem assms(5,6) by (simp add: interpret_response_def)
  have ta: "try_attempt e k ep tn args key =
      ([HttpPost (rstrip_slash ep @ ''/tools/call'') hs (call_body tn args)], Inr ?r)"
    using assms(3,4) ir by (simp add: try_attempt_def)
  then have r: "snd (try_attempt e k ep tn args key) = Inr ?r"
    and am: "attempts_made (fst (try_attempt e k ep tn args key)) = 1"
    by (simp_all add: attempts_made_def)
  from retry_loop_after_timeouts [OF n k assms(2) r, of 0] am show ?thesis
    by (cases "retry_loop e cfg ep tn args key [0..<?n]") (simp add: invoke_tool_def py_range_def)
qed

text \<open>The body \<open>{"error": {"message": "quota exceeded"}}\<close> on the first attempt.\<close>

theorem invoke_tool_error_passthrough_witness:
  "snd (invoke_tool (example_env (\<lambda>k. Inr quota_error)) (example_settings 3) ''http://tool/'' ''echo'' JNull None)
     = \<lparr>success = False, result = JNull, error = JStr ''quota exceeded'', duration_ms = 0\<rparr>
   \<and> attempts_made (fst (invoke_tool (example_env (\<lambda>k. Inr quota_error)) (example_settings 3) ''http://tool/'' ''echo'' JNull None)) = 1"
  using invoke_tool_error_passthrough [of 0 "example_settings 3" "example_env (\<lambda>k. Inr quota_error)"
      "''http://tool/''" "''echo''" JNull None "[(''Content-Type'', ''application/json'')]"
      "[(''error'', JObj [(''message'', JStr ''quota exceeded'')])]"
      "[(''message'', JStr ''quota exceeded'')]" "JStr ''quota exceeded''"]
  by (simp add: example_settings_def example_env_def build_headers_def quota_error_def)

lemma str_int_429: "str_int 429 = ''429''"
  by code_simp

text \<open>
  Claim C7 as stated fails: a response with status 429 whose body is
  \<open>{"error": {"message": "quota exceeded"}}\<close> makes \<open>raise_for_status\<close> raise, the body is not
  parsed, and the error message is the HTTP status with the body text, not
  "quota exceeded". One attempt is made.
\<close>

theorem invoke_tool_error_status_counterexample:
  "snd (invoke_tool (example_env (\<lambda>k. Inl (HTTPStatusError 429 quota_error_text))) (example_settings 3)
          ''http://tool/'' ''echo'' JNull None)
     = failure (''HTTP 429: '' @ quota_error_text) 0
   \<and> error (snd (invoke_tool (example_env (\<lambda>k. Inl (HTTPStatusError 429 quota_error_text))) (example_settings 3)
          ''http://tool/'' ''echo'' JNull None))
     \<noteq> JStr ''quota exceeded''
   \<and> attempts_made (fst (invoke_tool (example_env (\<lambda>k. Inl (HTTPStatusError 429 quota_error_text)))
          (example_settings 3) ''http://tool/'' ''echo'' JNull None)) = 1"
  by (simp add: invoke_tool_def py_range_def upt_rec example_settings_def example_env_def
      try_attempt_def build_headers_def failure_def attempts_made_def str_int_429 quota_error_text_def)



section \<open>Properties of the rate limiters\<close>

lemma is_allowed_pipeline_count:
  "fst (is_allowed_pipeline key w now st) = int (length (surviving key w now st))"
  by (simp add: is_allowed_pipeline_def Let_def zcard_def zremrangebyscore_def put_zset_def surviving_def)

lemma surviving_checks [simp]:
  "surviving key w now (st\<lparr>checks := c\<rparr>) = surviving key w now st"
  by (simp add: surviving_def)

text \<open>
  Claim C2. Let \<open>count\<close> be the number of entries of the key that survive the eviction.
  A check is admitted exactly when \<open>count < limit\<close>. Its decision has
  \<open>remaining = max 0 (limit - count - 1)\<close> when admitted and
  \<open>remaining = max 0 (limit - count)\<close> when denied (both expressions are then 0), and
  \<open>reset\<close> is \<open>now + window_seconds\<close> as a whole number of seconds.
\<close>

theorem is_allowed_decision:
  assumes "fst (is_allowed key n w now st) = (allowed, info)"
  shows "allowed = (int (length (surviving key w now st)) < n)
     \<and> (allowed \<longrightarrow> remaining info = max 0 (n - int (length (surviving key w now st)) - 1))
     \<and> (\<not> allowed \<longrightarrow> remaining info = max 0 (n - int (length (surviving key w now st))))
     \<and> reset info = py_int (now + real_of_int w)
     \<and> limit info = n \<and> window info = w"
proof -
  obtain c st' where p: "is_allowed_pipeline key w now (st\<lparr>checks := checks st @ [key]\<rparr>) = (c, st')"
    by (cases "is_allowed_pipeline key w now (st\<lparr>checks := checks st @ [key]\<rparr>)") auto
  have c: "c = int (length (surviving key w now st))"
    using is_allowed_pipeline_count [of key w now "st\<lparr>checks := checks st @ [key]\<rparr>"] p by simp
  from assms p show ?thesis
    unfolding c [symmetric]
    by (auto simp: is_allowed_def is_allowed_finish_def Let_def split: if_splits)
qed

lemmas redis_defs = is_allowed_def is_allowed_pipeline_def is_allowed_finish_def
  zremrangebyscore_def zcard_def zadd_def zrem_def expire_def put_zset_def empty_redis_def
  redis_get_def redis_set_def

text \<open>An admitted check on a cold key, and a denied second check with limit 1.\<close>

theorem is_allowed_decision_witness:
  "fst (is_allowed ''k'' 2 60 100 empty_redis)
     = (True, \<lparr>limit = 2, remaining = 1, reset = 160, window = 60\<rparr>)
   \<and> fst (is_allowed ''k'' 1 60 101 (snd (is_allowed ''k'' 1 60 100 empty_redis)))
     = (False, \<lparr>limit = 1, remaining = 0, reset = 161, window = 60\<rparr>)
   \<and> length (surviving ''k'' 60 100 empty_redis) = 0
   \<and> length (surviving ''k'' 60 101 (snd (is_allowed ''k'' 1 60 100 empty_redis))) = 1"
  using is_allowed_decision [of "''k''" 2 60 100 empty_redis True
      "\<lparr>limit = 2, remaining = 1, reset = 160, window = 60\<rparr>"]
    is_allowed_decision [of "''k''" 1 60 101 "snd (is_allowed ''k'' 1 60 100 empty_redis)" False
      "\<lparr>limit = 1, remaining = 0, reset = 161, window = 60\<rparr>"]
  by (simp add: redis_defs surviving_def Let_def py_int_def)

text \<open>
  Claim C4, as amended. When the refilled token count is below the request, \<open>consume\<close>
  returns \<open>False\<close> with the refilled count and leaves the store as it was: nothing is
  written. When it suffices, \<open>consume\<close> returns \<open>True\<close> and stores the refilled and debited
  count and \<open>now\<close> as the last update, both with an expiry of 3600 seconds.
\<close>

theorem consume_persistence:
  "(refilled_tokens cfg key bucket_size refill_rate now st < real_of_int tokens \<longrightarrow>
      consume cfg key tokens bucket_size refill_rate now st
        = ((False, py_int (refilled_tokens cfg key bucket_size refill_rate now st)), st))
   \<and> (real_of_int tokens \<le> refilled_tokens cfg key bucket_size refill_rate now st \<longrightarrow>
      fst (consume cfg key tokens bucket_size refill_rate now st)
        = (True, py_int (refilled_tokens cfg key bucket_size refill_rate now st - real_of_int tokens))
      \<and> strings (snd (consume cfg key tokens bucket_size refill_rate now st)) (''bucket:'' @ key)
        = Some (refilled_tokens cfg key bucket_size refill_rate now st - real_of_int tokens)
      \<and> strings (snd (consume cfg key tokens bucket_size refill_rate now st)) (''bucket:'' @ key @ '':last'')
        = Some now
      \<and> ttl (snd (consume cfg key tokens bucket_size refill_rate now st)) (''bucket:'' @ key) = Some 3600
      \<and> ttl (snd (consume cfg key tokens bucket_size refill_rate now st)) (''bucket:'' @ key @ '':last'') = Some 3600)"
  by (simp add: consume_def Let_def redis_set_def expire_def)

text \<open>A denied request on a bucket holding half a token, and an admitted one on a new bucket.\<close>

theorem consume_persistence_witness:
  "consume (example_settings 3) ''k'' 1 (Some 10) (1 / 4) 1 half_bucket = ((False, 0), half_bucket)
   \<and> fst (consume (example_settings 3) ''k'' 1 None 1 50 empty_redis) = (True, 9)
   \<and> strings (snd (consume (example_settings 3) ''k'' 1 None 1 50 empty_redis)) ''bucket:k'' = Some 9
   \<and> strings (snd (consume (example_settings 3) ''k'' 1 None 1 50 empty_redis)) ''bucket:k:last'' = Some 50"
  using consume_persistence [of "example_settings 3" "''k''" "Some 10" "1 / 4" 1 half_bucket 1]
    consume_persistence [of "example_settings 3" "''k''" None 1 50 empty_redis 1]
  by (simp add: refilled_tokens_def effective_bucket_size_def redis_get_def half_bucket_def
      empty_redis_def example_settings_def Let_def py_int_def)

text \<open>
  Claim C4 as stated fails: a bucket holds half a token, last updated at time 0; at time 1
  with a refill rate of one quarter the refilled count is three quarters, the request for
  one token is denied, and the store still holds one half and the update time 0.
\<close>

theorem consume_persistence_counterexample:
  "fst (fst (consume (example_settings 3) ''k'' 1 (Some 10) (1 / 4) 1 half_bucket)) = False
   \<and> refilled_tokens (example_settings 3) ''k'' (Some 10) (1 / 4) 1 half_bucket = 3 / 4
   \<and> strings (snd (consume (example_settings 3) ''k'' 1 (Some 10) (1 / 4) 1 half_bucket)) ''bucket:k''
       = Some (1 / 2)
   \<and> strings (snd (consume (example_settings 3) ''k'' 1 (Some 10) (1 / 4) 1 half_bucket)) ''bucket:k:last''
       = Some 0
   \<and> strings (snd (consume (example_settings 3) ''k'' 1 (Some 10) (1 / 4) 1 half_bucket)) ''bucket:k''
       \<noteq> Some (refilled_tokens (example_settings 3) ''k'' (Some 10) (1 / 4) 1 half_bucket)
   \<and> strings (snd (consume (example_settings 3) ''k'' 1 (Some 10) (1 / 4) 1 half_bucket)) ''bucket:k:last''
       \<noteq> Some 1"
  by (simp add: consume_def refilled_tokens_def effective_bucket_size_def redis_get_def half_bucket_def
      empty_redis_def example_settings_def Let_def)



section \<open>Properties of concurrent checks\<close>

lemma step_call_sequential:
  "step_call key n w now (fst (step_call key n w now Pending st)) (snd (step_call key n w now Pending st))
     = (Returned (fst (fst (is_allowed key n w now st))), snd (is_allowed key n w now st))"
  by (simp add: is_allowed_def split: prod.splits)

lemma pipeline_inserts:
  "0 < w \<Longrightarrow> (now, now) \<in> set (zsets (snd (is_allowed_pipeline key w now st)) key)"
  by (simp add: is_allowed_pipeline_def Let_def zremrangebyscore_def zadd_def expire_def put_zset_def)

lemma pipeline_cold:
  "zsets st key = [] \<Longrightarrow> fst (is_allowed_pipeline key w now st) = 0"
  by (simp add: is_allowed_pipeline_def Let_def zremrangebyscore_def zcard_def put_zset_def)

lemma pipeline_counts_recent:
  assumes "(t, t) \<in> set (zsets st key)" and "now - real_of_int w < t"
  shows "1 \<le> fst (is_allowed_pipeline key w now st)"
proof -
  have "(t, t) \<in> set (filter (\<lambda>(m, s). \<not> (0 \<le> s \<and> s \<le> now - real_of_int w)) (zsets st key))"
    using assms by simp
  then have "filter (\<lambda>(m, s). \<not> (0 \<le> s \<and> s \<le> now - real_of_int w)) (zsets st key) \<noteq> []"
    by (metis empty_iff empty_set)
  then show ?thesis
    by (simp add: is_allowed_pipeline_def Let_def zremrangebyscore_def zcard_def put_zset_def Suc_le_eq)
qed

lemma zsets_checks [simp]: "zsets (st\<lparr>checks := c\<rparr>) = zsets st"
  by simp

lemma step_pending:
  "step_call key n w now Pending st =
     (Counted (fst (is_allowed_pipeline key w now (st\<lparr>checks := checks st @ [key]\<rparr>))),
      snd (is_allowed_pipeline key w now (st\<lparr>checks := checks st @ [key]\<rparr>)))"
  by (simp split: prod.splits)

lemma step_counted_admit:
  "c < 1 \<Longrightarrow> step_call key 1 w now (Counted c) st = (Returned True, st)"
  by (simp add: is_allowed_finish_def Let_def)

lemma step_counted_deny:
  "1 \<le> c \<Longrightarrow> fst (step_call key 1 w now (Counted c) st) = Returned False"
  by (simp add: is_allowed_finish_def Let_def)

lemma step_admitted_path:
  "admitted_path p \<Longrightarrow> step_call key 1 w now p st = (p', st') \<Longrightarrow> admitted_path p' \<and> st' = st"
  by (cases p) (auto simp: is_allowed_finish_def Let_def)

lemma step_denied_path:
  "denied_path p \<Longrightarrow> step_call key 1 w now p st = (p', st') \<Longrightarrow> denied_path p'"
  by (cases p) (auto simp: is_allowed_finish_def Let_def)

lemma step_pending_cold:
  assumes "zsets st key = []" and "0 < w" and "step_call key 1 w now Pending st = (p', st')"
  shows "admitted_path p' \<and> (now, now) \<in> set (zsets st' key)"
  using assms pipeline_cold [of "st\<lparr>checks := checks st @ [key]\<rparr>" key w now]
    pipeline_inserts [of w now key "st\<lparr>checks := checks st @ [key]\<rparr>"]
  unfolding step_pending by auto

lemma step_pending_after:
  assumes "(t, t) \<in> set (zsets st key)" and "now - real_of_int w < t"
    and "step_call key 1 w now Pending st = (p', st')"
  shows "denied_path p'"
  using assms pipeline_counts_recent [of t "st\<lparr>checks := checks st @ [key]\<rparr>" key now w]
  unfolding step_pending by auto

lemma inv_step_first:
  assumes inv: "single_admit_inv key ta tb (a, b, st)"
    and near: "\<bar>ta - tb\<bar> < real_of_int w"
    and step: "step_call key 1 w ta a st = (a', st')"
  shows "single_admit_inv key ta tb (a', b, st')"
proof -
  have w: "0 < w" using near by linarith
  from inv consider
      (start) "a = Pending" "b = Pending" "zsets st key = []"
    | (left) "admitted_path a" "b = Pending" "(ta, ta) \<in> set (zsets st key)"
    | (right) "a = Pending" "admitted_path b" "(tb, tb) \<in> set (zsets st key)"
    | (ad) "admitted_path a" "denied_path b"
    | (da) "denied_path a" "admitted_path b"
    by (auto simp: single_admit_inv_def)
  then show ?thesis
  proof cases
    case start
    with step_pending_cold [of st key w ta a' st'] w step show ?thesis
      by (simp add: single_admit_inv_def)
  next
    case left
    with step_admitted_path [of a key w ta st a' st'] step show ?thesis
      by (simp add: single_admit_inv_def)
  next
    case right
    have "ta - real_of_int w < tb" using near by linarith
    with step_pending_after [of tb st key ta w a' st'] right step show ?thesis
      by (simp add: single_admit_inv_def)
  next
    case ad
    with step_admitted_path [of a key w ta st a' st'] step show ?thesis
      by (simp add: single_admit_inv_def)
  next
    case da
    with step_denied_path [of a key w ta st a' st'] step show ?thesis
      by (simp add: single_admit_inv_def)
  qed
qed

lemma inv_step_second:
  assumes inv: "single_admit_inv key ta tb (a, b, st)"
    and near: "\<bar>ta - tb\<bar> < real_of_int w"
    and step: "step_call key 1 w tb b st = (b', st')"
  shows "single_admit_inv key ta tb (a, b', st')"
proof -
  have w: "0 < w" using near by linarith
  from inv consider
      (start) "a = Pending" "b = Pending" "zsets st key = []"
    | (left) "admitted_path a" "b = Pending" "(ta, ta) \<in> set (zsets st key)"
    | (right) "a = Pending" "admitted_path b" "(tb, tb) \<in> set (zsets st key)"
    | (ad) "admitted_path a" "denied_path b"
    | (da) "denied_path a" "admitted_path b"
    by (auto simp: single_admit_inv_def)
  then show ?thesis
  proof cases
    case start
    with step_pending_cold [of st key w tb b' st'] w step show ?thesis
      by (simp add: single_admit_inv_def)
  next
    case left
    have "tb - real_of_int w < ta" using near by linarith
    with step_pending_after [of ta st key tb w b' st'] left step show ?thesis
      by (simp add: single_admit_inv_def)
  next
    case right
    with step_admitted_path [of b key w tb st b' st'] step show ?thesis
      by (simp add: single_admit_inv_def)
  next
    case ad
    with step_denied_path [of b key w tb st b' st'] step show ?thesis
      by (simp add: single_admit_inv_def)
  next
    case da
    with step_admitted_path [of b key w tb st b' st'] step show ?thesis
      by (simp add: single_admit_inv_def)
  qed
qed

lemma inv_run_schedule:
  assumes near: "\<bar>ta - tb\<bar> < real_of_int w"
  shows "single_admit_inv key ta tb s \<Longrightarrow> single_admit_inv key ta tb (run_schedule key 1 w ta tb sched s)"
proof (induction sched arbitrary: s)
  case Nil
  then show ?case by simp
next
  case (Cons first sched)
  obtain a b st where s: "s = (a, b, st)" by (cases s) auto
  show ?case
  proof (cases first)
    case True
    obtain a' st' where st: "step_call key 1 w ta a st = (a', st')"
      by (cases "step_call key 1 w ta a st") auto
    from inv_step_first [OF _ near st] Cons.prems s
    have "single_admit_inv key ta tb (a', b, st')" by simp
    from Cons.IH [OF this] True s st show ?thesis by simp
  next
    case False
    obtain b' st' where st: "step_call key 1 w tb b st = (b', st')"
      by (cases "step_call key 1 w tb b st") auto
    from inv_step_second [OF _ near st] Cons.prems s
    have "single_admit_inv key ta tb (a, b', st')" by simp
    from Cons.IH [OF this] False s st show ?thesis by simp
  qed
qed

text \<open>
  Claim C3. The eviction, the count and the insertion of a check are one Redis
  transaction. For two concurrent checks against the same key with limit 1, starting from
  an empty window, under every interleaving of their steps, it is never the case that both
  return allowed. Concurrent: the clock readings of the two checks are less than a window
  apart.
\<close>

theorem no_double_admit:
  assumes "zsets st key = []"
    and "\<bar>ta - tb\<bar> < real_of_int w"
    and "run_schedule key 1 w ta tb sched (Pending, Pending, st) = (Returned x, Returned y, st')"
  shows "\<not> (x \<and> y)"
proof -
  have "single_admit_inv key ta tb (Pending, Pending, st)"
    using assms(1) by (simp add: single_admit_inv_def)
  from inv_run_schedule [OF assms(2) this, of sched] assms(3)
  have "single_admit_inv key ta tb (Returned x, Returned y, st')" by simp
  then show ?thesis by (auto simp: single_admit_inv_def)
qed

text \<open>Both pipelines run before either call finishes: the first is admitted, the second denied.\<close>

theorem no_double_admit_witness:
  "fst (run_schedule ''k'' 1 60 100 (201 / 2) [True, False, True, False] (Pending, Pending, empty_redis))
     = Returned True
   \<and> fst (snd (run_schedule ''k'' 1 60 100 (201 / 2) [True, False, True, False] (Pending, Pending, empty_redis)))
     = Returned False"
  using no_double_admit [of empty_redis "''k''" 100 "201 / 2" 60 "[True, False, True, False]" True False
      "snd (snd (run_schedule ''k'' 1 60 100 (201 / 2) [True, False, True, False] (Pending, Pending, empty_redis)))"]
  by (simp add: redis_defs Let_def)

section \<open>Properties of the admission gate\<close>







section \<open>Properties of tool discovery\<close>

lemma discover_tools_total:
  "\<exists>ts. discover_tools decrypt http_post ep key aid aname = Inr ts"
  by (simp add: discover_tools_def split: sum.splits py_exception.splits)

text \<open>
  Claim C8. \<open>discover_tools\<close> always returns a list of tools: no exception of its \<open>try\<close>
  block leaves it. Whenever the block raises (decryption, network error, status that is
  not a success, body that is not JSON, or a catalogue of the wrong shape), the result is
  the empty list; in particular for an endpoint every request to which fails.
\<close>

theorem discover_tools_never_raises:
  "(\<exists>ts. discover_tools decrypt http_post ep key aid aname = Inr ts)
   \<and> (\<forall>ex. discover_tools_try decrypt http_post ep key aid aname = Inl ex \<longrightarrow>
        discover_tools decrypt http_post ep key aid aname = Inr [])
   \<and> ((\<forall>url hs body. \<exists>ex. http_post url hs body = Inl ex) \<longrightarrow>
        discover_tools decrypt http_post ep key aid aname = Inr [])"
proof (intro conjI allI impI)
  show "\<exists>ts. discover_tools decrypt http_post ep key aid aname = Inr ts"
    by (rule discover_tools_total)
next
  fix ex
  assume "discover_tools_try decrypt http_post ep key aid aname = Inl ex"
  then show "discover_tools decrypt http_post ep key aid aname = Inr []"
    by (simp add: discover_tools_def split: py_exception.splits)
next
  assume f: "\<forall>url hs body. \<exists>ex. http_post url hs body = Inl ex"
  have nf: "http_post url hs body \<noteq> Inr d" for url hs body d
    using f by (metis sum.distinct(1))
  have "\<exists>ex. discover_tools_try decrypt http_post ep key aid aname = Inl ex"
    by (auto simp: discover_tools_try_def Let_def nf split: option.splits sum.splits)
  then show "discover_tools decrypt http_post ep key aid aname = Inr []"
    by (auto simp: discover_tools_def split: py_exception.splits)
qed

text \<open>HTTP 500, a body that is not JSON, and a catalogue that is a number.\<close>

theorem discover_tools_never_raises_witness:
  "discover_tools (\<lambda>enc. Inr enc) (\<lambda>url hs body. Inl (HTTPStatusError 500 ''Internal Server Error''))
      ''http://tool/'' None ''app1'' ''App'' = Inr []
   \<and> discover_tools (\<lambda>enc. Inr enc) (\<lambda>url hs body. Inl (OtherException ''Expecting value: line 1 column 1 (char 0)''))
      ''http://tool/'' (Some ''gAAAA'') ''app1'' ''App'' = Inr []
   \<and> discover_tools (\<lambda>enc. Inr enc) (\<lambda>url hs body. Inr (JObj [(''tools'', JInt 5)]))
      ''http://tool/'' None ''app1'' ''App'' = Inr []"
  using discover_tools_never_raises [of "\<lambda>enc. Inr enc"
      "\<lambda>url hs body. Inl (HTTPStatusError 500 ''Internal Server Error'')" "''http://tool/''" None "''app1''" "''App''"]
    discover_tools_never_raises [of "\<lambda>enc. Inr enc"
      "\<lambda>url hs body. Inl (OtherException ''Expecting value: line 1 column 1 (char 0)'')" "''http://tool/''"
      "Some ''gAAAA''" "''app1''" "''App''"]
    discover_tools_never_raises [of "\<lambda>enc. Inr enc"
      "\<lambda>url hs body. Inr (JObj [(''tools'', JInt 5)])" "''http://tool/''" None "''app1''" "''App''"]
  by (simp add: discover_tools_try_def)

section \<open>Properties of the tool-invocation path\<close>














section \<open>Properties of request signing\<close>

text \<open>
  Claim C9 as stated fails. A hex digest of SHA-256 has 64 characters, and no function
  with outputs of 64 characters tells all bodies apart: for every such HMAC there are two
  different bodies such that the signature of one verifies against the other.
\<close>

theorem signature_tamper_counterexample:
  "\<not> (\<exists>h. (\<forall>k m. length (h k m) = 64)
        \<and> (\<forall>body body'. body' \<noteq> body \<longrightarrow>
              \<not> verify_signature h (example_settings 3) ''/tools/call'' ''POST'' body' ''1700000000''
                  (sign_request h (example_settings 3) ''/tools/call'' ''POST'' body ''1700000000'')))"
proof
  assume "\<exists>h. (\<forall>k m. length (h k m) = 64)
        \<and> (\<forall>body body'. body' \<noteq> body \<longrightarrow>
              \<not> verify_signature h (example_settings 3) ''/tools/call'' ''POST'' body' ''1700000000''
                  (sign_request h (example_settings 3) ''/tools/call'' ''POST'' body ''1700000000''))"
  then obtain h where len: "\<And>k m. length (h k m) = 64"
    and tamper: "\<And>body body'. body' \<noteq> body \<Longrightarrow>
              \<not> verify_signature h (example_settings 3) ''/tools/call'' ''POST'' body' ''1700000000''
                  (sign_request h (example_settings 3) ''/tools/call'' ''POST'' body ''1700000000'')"
    by blast
  define f where "f body = sign_request h (example_settings 3) ''/tools/call'' ''POST'' body ''1700000000''"
    for body
  have "inj f"
  proof (rule injI)
    fix x y
    assume "f x = f y"
    then show "x = y"
      using tamper [of y x] by (auto simp: f_def verify_signature_def)
  qed
  moreover have "range f \<subseteq> {xs. set xs \<subseteq> UNIV \<and> length xs = 64}"
    by (auto simp: f_def sign_request_def len)
  then have "finite (range f)"
    using finite_lists_length_eq [of "UNIV :: char set" 64] by (simp add: finite_subset)
  ultimately have "finite (UNIV :: string set)"
    by (rule finite_imageD [rotated])
  then show False
    using infinite_UNIV_listI by blast
qed

text \<open>
  Claim C9, as amended. The signature of a request verifies against the same request and
  secret, and the signature header of \<open>MCPClient._sign_request\<close> keyed with the signing
  secret is that signature. Verifying the original signature against another request
  succeeds exactly when the HMAC of the two signed messages is the same; and changing
  exactly one of method, endpoint, timestamp or body changes the signed message. So the
  verification fails unless the two messages collide under the HMAC.
\<close>

theorem signature_round_trip:
  "verify_signature h cfg endpoint meth body ts (sign_request h cfg endpoint meth body ts)
   \<and> map_of (client_sign_request h now endpoint meth body (MCP_SIGNING_SECRET cfg)) ''X-MCP-Signature''
       = Some (sign_request h cfg endpoint meth body (str_int (py_int now)))
   \<and> verify_signature h cfg endpoint' meth' body' ts' (sign_request h cfg endpoint meth body ts)
       = (h (MCP_SIGNING_SECRET cfg) (canonical_message meth' endpoint' ts' body')
          = h (MCP_SIGNING_SECRET cfg) (canonical_message meth endpoint ts body))
   \<and> (meth' \<noteq> meth \<longrightarrow>
        canonical_message meth' endpoint ts body \<noteq> canonical_message meth endpoint ts body)
   \<and> (endpoint' \<noteq> endpoint \<longrightarrow>
        canonical_message meth endpoint' ts body \<noteq> canonical_message meth endpoint ts body)
   \<and> (ts' \<noteq> ts \<longrightarrow>
        canonical_message meth endpoint ts' body \<noteq> canonical_message meth endpoint ts body)
   \<and> (body' \<noteq> body \<longrightarrow>
        canonical_message meth endpoint ts body' \<noteq> canonical_message meth endpoint ts body)"
  by (auto simp: verify_signature_def sign_request_def client_sign_request_def Let_def
      canonical_message_def)

text \<open>A request to \<open>/tools/call\<close> and its four single-field changes.\<close>

theorem signature_round_trip_witness:
  "verify_signature (\<lambda>k m. k @ m) (example_settings 3) ''/tools/call'' ''POST'' ''{}'' ''1700000000''
     (sign_request (\<lambda>k m. k @ m) (example_settings 3) ''/tools/call'' ''POST'' ''{}'' ''1700000000'')
   \<and> canonical_message ''GET'' ''/tools/call'' ''1700000000'' ''{}''
       \<noteq> canonical_message ''POST'' ''/tools/call'' ''1700000000'' ''{}''
   \<and> canonical_message ''POST'' ''/tools/list'' ''1700000000'' ''{}''
       \<noteq> canonical_message ''POST'' ''/tools/call'' ''1700000000'' ''{}''
   \<and> canonical_message ''POST'' ''/tools/call'' ''1700000001'' ''{}''
       \<noteq> canonical_message ''POST'' ''/tools/call'' ''1700000000'' ''{}''
   \<and> canonical_message ''POST'' ''/tools/call'' ''1700000000'' ''[1]''
       \<noteq> canonical_message ''POST'' ''/tools/call'' ''1700000000'' ''{}''"
  using signature_round_trip [of "\<lambda>k m. k @ m" "example_settings 3" "''/tools/call''" "''POST''" "''{}''"
      "''1700000000''" 0 "''/tools/list''" "''GET''" "''[1]''" "''1700000001''"]
  by simp

end
